theory Spec2Isabelle
  imports Main
begin

section \<open>Combined rate limiter (src/src/rate_limiter.py)\<close>

subsection \<open>Instants and durations\<close>

text \<open>
  A naive \<open>datetime\<close> has microsecond resolution and no time zone; its arithmetic is
  calendar arithmetic with days of exactly 86400 seconds. An instant is therefore the
  number of microseconds since midnight of the first day of the calendar, and a
  \<open>timedelta\<close> is a number of microseconds. The bounds of \<open>datetime\<close> (years 1 to
  9999) are not modelled: the instants read from the clock are far from both.
\<close>

type_synonym instant = int
type_synonym timedelta = int

definition second :: timedelta where
  "second = 1000000"

definition minute :: timedelta where
  "minute = 60 * second"

definition hour :: timedelta where
  "hour = 60 * minute"

definition day :: timedelta where
  "day = 24 * hour"

text \<open>\<open>now.replace(hour=0, minute=0, second=0)\<close>: the date and the microsecond field stay.\<close>

definition replace_hms0 :: "instant \<Rightarrow> instant" where
  "replace_hms0 t = (t div day) * day + t mod second"

text \<open>\<open>strftime('%H:%M')\<close>: hour and minute of the day, two decimal digits each.\<close>

definition digit_char :: "int \<Rightarrow> char" where
  "digit_char d = ''0123456789'' ! nat d"

definition two_digits :: "int \<Rightarrow> string" where
  "two_digits n = [digit_char (n div 10 mod 10), digit_char (n mod 10)]"

definition strftime_HM :: "instant \<Rightarrow> string" where
  "strftime_HM t = two_digits (t div hour mod 24) @ '':'' @ two_digits (t div minute mod 60)"

subsection \<open>Limits\<close>

record limits =
  rpm :: int
  tpm :: int
  rpd :: int

definition INDIVIDUAL_LIMITS :: "(string \<times> limits) list" where
  "INDIVIDUAL_LIMITS =
     [(''gemini-2.0-flash'', \<lparr>rpm = 15, tpm = 1000000, rpd = 200\<rparr>),
      (''gemini-2.5-flash'', \<lparr>rpm = 10, tpm = 250000, rpd = 250\<rparr>)]"

definition individual :: "string \<Rightarrow> limits" where
  "individual name = the (map_of INDIVIDUAL_LIMITS name)"

definition COMBINED_LIMITS :: limits where
  "COMBINED_LIMITS =
     \<lparr>rpm = min (rpm (individual ''gemini-2.0-flash'')) (rpm (individual ''gemini-2.5-flash'')),
      tpm = min (tpm (individual ''gemini-2.0-flash'')) (tpm (individual ''gemini-2.5-flash'')),
      rpd = min (rpd (individual ''gemini-2.0-flash'')) (rpd (individual ''gemini-2.5-flash''))\<rparr>"

subsection \<open>The limiter's state\<close>

text \<open>
  \<open>request_times\<close> is the deque, oldest entry first; \<open>model_requests\<close> is the
  dictionary of per-model counters, in insertion order.
\<close>

record limiter =
  request_times :: "instant list"
  daily_requests :: int
  daily_reset_time :: instant
  model_requests :: "(string \<times> int) list"

text \<open>\<open>RateLimiter.__init__\<close>, with the reading of the clock it makes.\<close>

definition init_limiter :: "instant \<Rightarrow> limiter" where
  "init_limiter now =
     \<lparr>request_times = [],
      daily_requests = 0,
      daily_reset_time = replace_hms0 now + day,
      model_requests = [(''gemini-2.0-flash'', 0), (''gemini-2.5-flash'', 0)]\<rparr>"

text \<open>
  The result of a call of \<open>wait_if_needed\<close>: it returns (after sleeping for the given
  duration, if it slept), or it raises \<open>Exception\<close> with the given message.
\<close>

datatype admission = Admitted "timedelta option" | Raised string

text \<open>\<open>{k: 0 for k in self.model_requests.keys()}\<close>\<close>

definition zero_counters :: "(string \<times> int) list \<Rightarrow> (string \<times> int) list" where
  "zero_counters m = map (\<lambda>(k, v). (k, 0)) m"

text \<open>\<open>if model_name in self.model_requests: self.model_requests[model_name] += 1\<close>\<close>

definition track_model :: "string \<Rightarrow> (string \<times> int) list \<Rightarrow> (string \<times> int) list" where
  "track_model model_name m = map (\<lambda>(k, v). if k = model_name then (k, v + 1) else (k, v)) m"

text \<open>The loop that pops the entries older than the cutoff from the left of the deque.\<close>

fun clean_old :: "instant \<Rightarrow> instant list \<Rightarrow> instant list" where
  "clean_old cutoff_time [] = []"
| "clean_old cutoff_time (t # ts) =
     (if t < cutoff_time then clean_old cutoff_time ts else t # ts)"

text \<open>The daily reset at the head of \<open>wait_if_needed\<close>.\<close>

definition daily_reset :: "limiter \<Rightarrow> instant \<Rightarrow> limiter" where
  "daily_reset s now =
     (if now \<ge> daily_reset_time s
      then s\<lparr>daily_requests := 0,
             daily_reset_time := replace_hms0 now + day,
             model_requests := zero_counters (model_requests s)\<rparr>
      else s)"

text \<open>
  \<open>wait_if_needed\<close>, given the reading \<open>now\<close> of the clock at its head. The state is
  returned in both cases: an exception leaves the object as it was when raised. The
  sleep is \<open>wait_time + 1\<close> seconds, here in microseconds (the rounding of
  \<open>total_seconds()\<close> to a float is far below a microsecond and does not change the
  sign of \<open>wait_time\<close>). The progress messages printed are not part of the model.
\<close>

definition wait_if_needed :: "limiter \<Rightarrow> instant \<Rightarrow> string \<Rightarrow> limiter \<times> admission" where
  "wait_if_needed s now model_name =
     (let s1 = daily_reset s now in
      if daily_requests s1 \<ge> rpd COMBINED_LIMITS
      then (s1, Raised (''Daily combined limit reached. Resets tomorrow at ''
                          @ strftime_HM (daily_reset_time s1)))
      else
        let cutoff_time = now - minute;
            times = clean_old cutoff_time (request_times s1);
            slept = (if int (length times) \<ge> rpm COMBINED_LIMITS
                     then (let wait_time = 60 * second - (now - hd times)
                           in if wait_time > 0 then Some (wait_time + second) else None)
                     else None)
        in (s1\<lparr>request_times := times @ [now],
                daily_requests := daily_requests s1 + 1,
                model_requests := track_model model_name (model_requests s1)\<rparr>,
            Admitted slept))"

text \<open>\<open>get_usage_summary\<close>: it prunes the deque too, so the state is returned as well.\<close>

record combined_usage =
  rpm_used :: int
  rpm_limit :: int
  rpd_used :: int
  rpd_limit :: int
  tpm_limit :: int

record usage_summary =
  combined :: combined_usage
  by_model :: "(string \<times> int) list"

definition get_usage_summary :: "limiter \<Rightarrow> instant \<Rightarrow> limiter \<times> usage_summary" where
  "get_usage_summary s now =
     (let cutoff_time = now - minute;
          times = clean_old cutoff_time (request_times s);
          s' = s\<lparr>request_times := times\<rparr>
      in (s',
          \<lparr>combined = \<lparr>rpm_used = int (length times),
                        rpm_limit = rpm COMBINED_LIMITS,
                        rpd_used = daily_requests s',
                        rpd_limit = rpd COMBINED_LIMITS,
                        tpm_limit = tpm COMBINED_LIMITS\<rparr>,
           by_model = model_requests s'\<rparr>))"

text \<open>
  A sequence of calls on one limiter, each with the reading of the clock at its head
  and the model name; a call that raises leaves the limiter for the next one.
\<close>

fun admit_all :: "limiter \<Rightarrow> (instant \<times> string) list \<Rightarrow> limiter" where
  "admit_all s [] = s"
| "admit_all s ((now, model_name) # calls) = admit_all (fst (wait_if_needed s now model_name)) calls"

text \<open>The instant at which a call that read \<open>now\<close> returns, at the earliest.\<close>

fun return_instant :: "instant \<Rightarrow> admission \<Rightarrow> instant" where
  "return_instant now (Admitted None) = now"
| "return_instant now (Admitted (Some d)) = now + d"
| "return_instant now (Raised msg) = now"


section \<open>JSON values and the decoder of the standard library\<close>

text \<open>
  The values \<open>json.loads\<close> yields: \<open>None\<close>, booleans, integers, floats, strings, lists
  and dictionaries. A dictionary is the list of its items in insertion order, with
  distinct keys. A float is kept as the text of its literal (\<open>NaN\<close>, \<open>Infinity\<close> and
  \<open>-Infinity\<close> included): the rounding to a binary float is not modelled, so equality
  of two \<open>JFloat\<close> is finer than equality of the floats. Texts are lists of
  characters below U+0100.
\<close>

datatype json =
    JNull
  | JBool bool
  | JInt int
  | JFloat string
  | JStr string
  | JList "json list"
  | JObj "(string \<times> json) list"

text \<open>
  What the decoder raises, as far as the extractor tells it apart: it catches
  \<open>json.JSONDecodeError\<close> and nothing else. Of any other exception the program only
  ever uses \<open>str(e)\<close>, so outside the decoder a raised exception is that string.
\<close>

datatype pyexn = JSONDecodeError | Exception string

subsection \<open>A model of \<open>json.loads\<close>\<close>

text \<open>
  The decoder is not code of the repository. The extractor below takes it as a
  parameter; \<open>json_loads\<close> is the instance used to evaluate the extractor on concrete
  texts. It follows the scanner of CPython's \<open>json\<close> package: the four whitespace
  characters, strict strings, the number pattern, the literals, objects and arrays
  without trailing commas, nothing but whitespace after the value. Two things are
  left out: an escape \<open>\uXXXX\<close> above U+00FF has no \<open>char\<close> and is refused here,
  and the limits of the interpreter (recursion depth, digits of an integer), which
  raise exceptions other than \<open>JSONDecodeError\<close>, are absent. No text evaluated below
  meets either.
\<close>

definition is_ws :: "char \<Rightarrow> bool" where
  "is_ws c = (c \<in> set [CHR '' '', CHR 0x09, CHR 0x0A, CHR 0x0D])"

definition skip_ws :: "string \<Rightarrow> string" where
  "skip_ws s = dropWhile is_ws s"

definition is_digit :: "char \<Rightarrow> bool" where
  "is_digit c = (c \<in> set ''0123456789'')"

definition digit_val :: "char \<Rightarrow> int" where
  "digit_val c = int (length (takeWhile (\<lambda>d. d \<noteq> c) ''0123456789''))"

definition int_of_digits :: "string \<Rightarrow> int" where
  "int_of_digits ds = foldl (\<lambda>a c. 10 * a + digit_val c) 0 ds"

definition hex_val :: "char \<Rightarrow> nat option" where
  "hex_val c =
     (if c \<in> set ''0123456789abcdef''
      then Some (length (takeWhile (\<lambda>d. d \<noteq> c) ''0123456789abcdef''))
      else if c \<in> set ''ABCDEF''
      then Some (10 + length (takeWhile (\<lambda>d. d \<noteq> c) ''ABCDEF''))
      else None)"

text \<open>The character of \<open>\uXXXX\<close>, for four hexadecimal digits denoting less than 256.\<close>

definition decode_uXXXX :: "char \<Rightarrow> char \<Rightarrow> char \<Rightarrow> char \<Rightarrow> char option" where
  "decode_uXXXX a b c d =
     (case (hex_val a, hex_val b, hex_val c, hex_val d) of
        (Some x, Some y, Some z, Some w) \<Rightarrow>
          (if x = 0 \<and> y = 0 then Some (char_of (16 * z + w)) else None)
      | _ \<Rightarrow> None)"

definition unescape :: "char \<Rightarrow> char option" where
  "unescape e =
     (if e = CHR 0x22 then Some (CHR 0x22)
      else if e = CHR 0x5C then Some (CHR 0x5C)
      else if e = CHR ''/'' then Some (CHR ''/'')
      else if e = CHR ''b'' then Some (CHR 0x08)
      else if e = CHR ''f'' then Some (CHR 0x0C)
      else if e = CHR ''n'' then Some (CHR 0x0A)
      else if e = CHR ''r'' then Some (CHR 0x0D)
      else if e = CHR ''t'' then Some (CHR 0x09)
      else None)"

definition is_control :: "char \<Rightarrow> bool" where
  "is_control c = ((of_char c :: nat) < 32)"

definition cons_result :: "char \<Rightarrow> (string \<times> string) option \<Rightarrow> (string \<times> string) option" where
  "cons_result c r = (case r of None \<Rightarrow> None | Some (s, rest) \<Rightarrow> Some (c # s, rest))"

text \<open>
  \<open>scanstring\<close>, from just after the opening quote: the string and the text after the
  closing quote.
\<close>

fun scanstring :: "string \<Rightarrow> (string \<times> string) option" where
  "scanstring [] = None"
| "scanstring (c # cs) =
     (if c = CHR 0x22 then Some ([], cs)
      else if c = CHR 0x5C then
        (case cs of
           [] \<Rightarrow> None
         | e # r \<Rightarrow>
             if e = CHR ''u'' then
               (case r of
                  h1 # h2 # h3 # h4 # r' \<Rightarrow>
                    (case decode_uXXXX h1 h2 h3 h4 of
                       None \<Rightarrow> None
                     | Some ch \<Rightarrow> cons_result ch (scanstring r'))
                | _ \<Rightarrow> None)
             else
               (case unescape e of
                  None \<Rightarrow> None
                | Some ch \<Rightarrow> cons_result ch (scanstring r)))
      else if is_control c then None
      else cons_result c (scanstring cs))"

text \<open>
  The number pattern \<open>(-?(?:0|[1-9][0-9]*))(\.[0-9]+)?([eE][-+]?[0-9]+)?\<close>: the three
  groups matched at the head of the text, and the rest.
\<close>

definition match_integer :: "string \<Rightarrow> (string \<times> string) option" where
  "match_integer s =
     (let (sign, r) = (case s of c # cs \<Rightarrow> if c = CHR ''-'' then ([c], cs) else ([], s)
                               | [] \<Rightarrow> ([], s))
      in case r of
           [] \<Rightarrow> None
         | d # ds \<Rightarrow>
             if d = CHR ''0'' then Some (sign @ [d], ds)
             else if is_digit d then Some (sign @ takeWhile is_digit r, dropWhile is_digit r)
             else None)"

definition match_frac :: "string \<Rightarrow> string \<times> string" where
  "match_frac s =
     (case s of
        c # d # ds \<Rightarrow>
          if c = CHR ''.'' \<and> is_digit d
          then (c # takeWhile is_digit (d # ds), dropWhile is_digit (d # ds))
          else ([], s)
      | _ \<Rightarrow> ([], s))"

definition match_exp :: "string \<Rightarrow> string \<times> string" where
  "match_exp s =
     (case s of
        e # r \<Rightarrow>
          if e = CHR ''e'' \<or> e = CHR ''E'' then
            (let (sign, r') = (case r of c # cs \<Rightarrow> if c = CHR ''-'' \<or> c = CHR ''+''
                                                    then ([c], cs) else ([], r)
                                        | [] \<Rightarrow> ([], r))
             in case r' of
                  d # ds \<Rightarrow>
                    if is_digit d
                    then (e # sign @ takeWhile is_digit r', dropWhile is_digit r')
                    else ([], s)
                | [] \<Rightarrow> ([], s))
          else ([], s)
      | [] \<Rightarrow> ([], s))"

definition int_of_literal :: "string \<Rightarrow> int" where
  "int_of_literal s =
     (case s of
        c # cs \<Rightarrow> if c = CHR ''-'' then - int_of_digits cs else int_of_digits s
      | [] \<Rightarrow> 0)"

definition match_number :: "string \<Rightarrow> (json \<times> string) option" where
  "match_number s =
     (case match_integer s of
        None \<Rightarrow> None
      | Some (integer, r1) \<Rightarrow>
          (let (frac, r2) = match_frac r1;
               (exp, r3) = match_exp r2
           in if frac \<noteq> [] \<or> exp \<noteq> []
              then Some (JFloat (integer @ frac @ exp), r3)
              else Some (JInt (int_of_literal integer), r3)))"

definition starts_with :: "string \<Rightarrow> string \<Rightarrow> bool" where
  "starts_with s p = (take (length p) s = p)"

text \<open>The scalars \<open>scan_once\<close> tries after strings, objects and arrays, in its order.\<close>

definition scan_scalar :: "string \<Rightarrow> (json \<times> string) option" where
  "scan_scalar s =
     (if starts_with s ''null'' then Some (JNull, drop 4 s)
      else if starts_with s ''true'' then Some (JBool True, drop 4 s)
      else if starts_with s ''false'' then Some (JBool False, drop 5 s)
      else case match_number s of
             Some r \<Rightarrow> Some r
           | None \<Rightarrow>
               if starts_with s ''NaN'' then Some (JFloat ''NaN'', drop 3 s)
               else if starts_with s ''Infinity'' then Some (JFloat ''Infinity'', drop 8 s)
               else if starts_with s ''-Infinity'' then Some (JFloat ''-Infinity'', drop 9 s)
               else None)"

text \<open>\<open>dict(pairs)\<close>: a later item with a key already present replaces its value in place.\<close>

fun dict_set :: "(string \<times> json) list \<Rightarrow> string \<Rightarrow> json \<Rightarrow> (string \<times> json) list" where
  "dict_set [] k v = [(k, v)]"
| "dict_set ((k', v') # d) k v = (if k' = k then (k, v) # d else (k', v') # dict_set d k v)"

definition dict_of :: "(string \<times> json) list \<Rightarrow> (string \<times> json) list" where
  "dict_of pairs = foldl (\<lambda>d (k, v). dict_set d k v) [] pairs"

text \<open>
  \<open>scan_once\<close> with the loops of \<open>JSONObject\<close> and \<open>JSONArray\<close>. The first argument
  bounds the chain of calls; every call of the chain consumes a character, so the
  length of the text is enough. \<open>JSONObject\<close> starts just after the opening quote of a
  key, \<open>JSONArray\<close> at a value.
\<close>

fun scan_once :: "nat \<Rightarrow> string \<Rightarrow> (json \<times> string) option"
  and JSONObject :: "nat \<Rightarrow> (string \<times> json) list \<Rightarrow> string \<Rightarrow> (json \<times> string) option"
  and JSONArray :: "nat \<Rightarrow> json list \<Rightarrow> string \<Rightarrow> (json \<times> string) option"
where
  "scan_once 0 s = None"
| "scan_once (Suc n) s =
     (case s of
        [] \<Rightarrow> None
      | c # cs \<Rightarrow>
          if c = CHR 0x22 then
            (case scanstring cs of None \<Rightarrow> None | Some (str, rest) \<Rightarrow> Some (JStr str, rest))
          else if c = CHR ''{'' then
            (case skip_ws cs of
               [] \<Rightarrow> None
             | d # ds \<Rightarrow>
                 if d = CHR ''}'' then Some (JObj [], ds)
                 else if d = CHR 0x22 then JSONObject n [] ds
                 else None)
          else if c = CHR ''['' then
            (case skip_ws cs of
               [] \<Rightarrow> None
             | d # ds \<Rightarrow>
                 if d = CHR '']'' then Some (JList [], ds)
                 else JSONArray n [] (d # ds))
          else scan_scalar s)"
| "JSONObject 0 pairs s = None"
| "JSONObject (Suc n) pairs s =
     (case scanstring s of
        None \<Rightarrow> None
      | Some (key, r1) \<Rightarrow>
          (case skip_ws r1 of
             [] \<Rightarrow> None
           | c # r2 \<Rightarrow>
               if c \<noteq> CHR '':'' then None
               else
                 (case scan_once n (skip_ws r2) of
                    None \<Rightarrow> None
                  | Some (val, r3) \<Rightarrow>
                      (case skip_ws r3 of
                         [] \<Rightarrow> None
                       | d # r4 \<Rightarrow>
                           if d = CHR ''}'' then Some (JObj (dict_of (pairs @ [(key, val)])), r4)
                           else if d \<noteq> CHR '','' then None
                           else
                             (case skip_ws r4 of
                                [] \<Rightarrow> None
                              | q # r5 \<Rightarrow>
                                  if q = CHR 0x22
                                  then JSONObject n (pairs @ [(key, val)]) r5
                                  else None)))))"
| "JSONArray 0 vals s = None"
| "JSONArray (Suc n) vals s =
     (case scan_once n s of
        None \<Rightarrow> None
      | Some (val, r1) \<Rightarrow>
          (case skip_ws r1 of
             [] \<Rightarrow> None
           | d # r2 \<Rightarrow>
               if d = CHR '']'' then Some (JList (vals @ [val]), r2)
               else if d \<noteq> CHR '','' then None
               else JSONArray n (vals @ [val]) (skip_ws r2)))"

definition json_loads :: "string \<Rightarrow> pyexn + json" where
  "json_loads s =
     (case scan_once (Suc (length s)) (skip_ws s) of
        None \<Rightarrow> Inl JSONDecodeError
      | Some (v, rest) \<Rightarrow> if skip_ws rest = [] then Inr v else Inl JSONDecodeError)"

section \<open>Resilient JSON extractor (src/src/json_utils.py)\<close>

subsection \<open>Strings\<close>

text \<open>\<open>str.strip()\<close>: the whitespace of \<open>str.isspace\<close> below U+0100.\<close>

definition isspace :: "char \<Rightarrow> bool" where
  "isspace c = (c \<in> set [CHR 0x09, CHR 0x0A, CHR 0x0B, CHR 0x0C, CHR 0x0D,
                          CHR 0x1C, CHR 0x1D, CHR 0x1E, CHR 0x1F, CHR 0x20,
                          CHR 0x85, CHR 0xA0])"

definition strip :: "string \<Rightarrow> string" where
  "strip s = rev (dropWhile isspace (rev (dropWhile isspace s)))"

text \<open>
  \<open>s.find(sub, start)\<close>: the lowest index at or after \<open>start\<close> where \<open>sub\<close> occurs,
  or -1. \<open>find_at\<close> searches a suffix of the text, \<open>i\<close> being the index of its head.
\<close>

fun find_at :: "string \<Rightarrow> string \<Rightarrow> nat \<Rightarrow> int" where
  "find_at sub [] i = (if sub = [] then int i else -1)"
| "find_at sub (c # cs) i =
     (if starts_with (c # cs) sub then int i else find_at sub cs (Suc i))"

definition find :: "string \<Rightarrow> string \<Rightarrow> nat \<Rightarrow> int" where
  "find s sub start = (if length s < start then -1 else find_at sub (drop start s) start)"

text \<open>\<open>sub in s\<close>\<close>

definition contains :: "string \<Rightarrow> string \<Rightarrow> bool" where
  "contains s sub = (find s sub 0 \<noteq> -1)"

text \<open>\<open>s[start:end]\<close> for indices that are not negative.\<close>

definition slice :: "string \<Rightarrow> nat \<Rightarrow> nat \<Rightarrow> string" where
  "slice s start end = take (end - start) (drop start s)"

subsection \<open>The three methods\<close>

text \<open>
  Method 2: the text between the first \<open>```json\<close> and the next \<open>```\<close>, stripped; nothing
  when there is no such fence.
\<close>

definition fenced_content :: "string \<Rightarrow> string option" where
  "fenced_content response_text =
     (if contains response_text ''```json'' \<and> contains response_text ''```'' then
        (let start = nat (find response_text ''```json'' 0) + 7;
             end = find response_text ''```'' start
         in if end \<noteq> -1 then Some (strip (slice response_text start (nat end))) else None)
      else None)"

text \<open>
  The loop of method 3 over \<open>response_text[start:]\<close>: the index \<open>i\<close> at which it
  breaks, if it does.
\<close>

fun scan_braces :: "string \<Rightarrow> int \<Rightarrow> nat \<Rightarrow> nat option" where
  "scan_braces [] brace_count i = None"
| "scan_braces (c # cs) brace_count i =
     (if c = CHR ''{'' then scan_braces cs (brace_count + 1) (Suc i)
      else if c = CHR ''}'' then
        (if brace_count - 1 = 0 then Some i else scan_braces cs (brace_count - 1) (Suc i))
      else scan_braces cs brace_count (Suc i))"

text \<open>Method 3: the text from the first \<open>{\<close> to the \<open>}\<close> at which the count returns to 0.\<close>

definition braced_content :: "string \<Rightarrow> string option" where
  "braced_content response_text =
     (let start = find response_text ''{'' 0 in
      if start \<noteq> -1 then
        (let end = (case scan_braces (drop (nat start) response_text) 0 0 of
                      Some i \<Rightarrow> nat start + i + 1
                    | None \<Rightarrow> nat start)
         in if end > nat start then Some (slice response_text (nat start) end) else None)
      else None)"

text \<open>
  One \<open>try\<close> block: the value if the decoder returns, the continuation if it raises
  \<open>JSONDecodeError\<close>, and the exception if it raises anything else.
\<close>

definition try_loads :: "(string \<Rightarrow> pyexn + json) \<Rightarrow> string \<Rightarrow> (string + json) \<Rightarrow> string + json" where
  "try_loads loads content otherwise =
     (case loads content of
        Inr v \<Rightarrow> Inr v
      | Inl JSONDecodeError \<Rightarrow> otherwise
      | Inl (Exception msg) \<Rightarrow> Inl msg)"

text \<open>
  \<open>extract_json_from_response\<close>. Its \<open>return None\<close> is the value \<open>JNull\<close>, the value a
  decoded \<open>null\<close> has too.
\<close>

definition method3 :: "(string \<Rightarrow> pyexn + json) \<Rightarrow> string \<Rightarrow> string + json" where
  "method3 loads response_text =
     (case braced_content response_text of
        Some json_content \<Rightarrow> try_loads loads json_content (Inr JNull)
      | None \<Rightarrow> Inr JNull)"

definition method2 :: "(string \<Rightarrow> pyexn + json) \<Rightarrow> string \<Rightarrow> string + json" where
  "method2 loads response_text =
     (case fenced_content response_text of
        Some json_content \<Rightarrow> try_loads loads json_content (method3 loads response_text)
      | None \<Rightarrow> method3 loads response_text)"

definition extract_json_from_response :: "(string \<Rightarrow> pyexn + json) \<Rightarrow> string \<Rightarrow> string + json" where
  "extract_json_from_response loads response_text =
     try_loads loads (strip response_text) (method2 loads response_text)"

text \<open>
  What \<open>clean_and_parse_json\<close> prints: the line naming the agent, and the line with the
  first 200 characters of the cleaned response (followed by three dots).
\<close>

datatype printed = Error_parsing_JSON_from string | Raw_response string

definition clean_and_parse_json ::
  "(string \<Rightarrow> pyexn + json) \<Rightarrow> string \<Rightarrow> string \<Rightarrow> (string + json) \<times> printed list" where
  "clean_and_parse_json loads response_text agent_name =
     (let cleaned = strip response_text;
          parsed_json = extract_json_from_response loads cleaned
      in if parsed_json = Inr JNull
         then (Inr JNull, [Error_parsing_JSON_from agent_name, Raw_response (take 200 cleaned)])
         else (parsed_json, []))"

section \<open>Model request gateway (src/src/gemini_client.py)\<close>

text \<open>
  What a run does besides computing its result, in order: the sleep of the limiter,
  the call of \<open>generate_content\<close> on the named model, and the pause between the two
  agents (in seconds).
\<close>

datatype effect = Limiter_sleep timedelta | Generate_content string | Pause int

text \<open>
  The collaborator's part of one request: \<open>generate_content\<close> raises, or reading
  \<open>.text\<close> of its response raises (the exception, as \<open>str(e)\<close>), or the text is read.
  The prompts are built from the input text and from the candidates without raising
  and reach nothing but the collaborator, whose behaviour is arbitrary here.
\<close>

type_synonym reply = "string + string"

text \<open>
  \<open>safe_gemini_request\<close> followed by the reading of \<open>.text\<close>: the limiter admits or
  raises; the exception is raised again after it is printed.
\<close>

definition safe_gemini_request ::
  "limiter \<Rightarrow> instant \<Rightarrow> string \<Rightarrow> reply \<Rightarrow> limiter \<times> effect list \<times> reply" where
  "safe_gemini_request s now model_name r =
     (case wait_if_needed s now model_name of
        (s', Raised msg) \<Rightarrow> (s', [], Inl msg)
      | (s', Admitted None) \<Rightarrow> (s', [Generate_content model_name], r)
      | (s', Admitted (Some d)) \<Rightarrow> (s', [Limiter_sleep d, Generate_content model_name], r))"

section \<open>Two-stage pipeline (src/src/metaphor_analyzer.py)\<close>

subsection \<open>Operations of Python on decoded values\<close>

text \<open>The messages of the exceptions are those of CPython 3.12.\<close>

fun type_name :: "json \<Rightarrow> string" where
  "type_name JNull = ''NoneType''"
| "type_name (JBool b) = ''bool''"
| "type_name (JInt i) = ''int''"
| "type_name (JFloat f) = ''float''"
| "type_name (JStr s) = ''str''"
| "type_name (JList l) = ''list''"
| "type_name (JObj d) = ''dict''"

definition quoted :: "string \<Rightarrow> string" where
  "quoted s = [CHR 0x27] @ s @ [CHR 0x27]"

text \<open>\<open>v.get(key, default)\<close>: only a dictionary has the method.\<close>

fun py_get :: "json \<Rightarrow> string \<Rightarrow> json \<Rightarrow> string + json" where
  "py_get (JObj d) key dflt = Inr (case map_of d key of Some v \<Rightarrow> v | None \<Rightarrow> dflt)"
| "py_get v key dflt = Inl (quoted (type_name v) @ '' object has no attribute '' @ quoted ''get'')"

text \<open>\<open>len(v)\<close>\<close>

fun py_len :: "json \<Rightarrow> string + nat" where
  "py_len (JStr s) = Inr (length s)"
| "py_len (JList l) = Inr (length l)"
| "py_len (JObj d) = Inr (length d)"
| "py_len v = Inl (''object of type '' @ quoted (type_name v) @ '' has no len()'')"

text \<open>
  \<open>v[key]\<close> for a key that is a string without quotes or escapes: \<open>str\<close> of the
  \<open>KeyError\<close> of a dictionary is the key in quotes.
\<close>

fun py_getitem :: "json \<Rightarrow> string \<Rightarrow> string + json" where
  "py_getitem (JObj d) key = (case map_of d key of Some v \<Rightarrow> Inr v | None \<Rightarrow> Inl (quoted key))"
| "py_getitem (JStr s) key = Inl (''string indices must be integers, not '' @ quoted ''str'')"
| "py_getitem (JList l) key = Inl ''list indices must be integers or slices, not str''"
| "py_getitem v key = Inl (quoted (type_name v) @ '' object is not subscriptable'')"

text \<open>
  The items a \<open>for\<close> loop takes from a value that has a \<open>len\<close>: the elements of a list,
  the characters of a string, the keys of a dictionary.
\<close>

fun py_iter :: "json \<Rightarrow> json list" where
  "py_iter (JList l) = l"
| "py_iter (JStr s) = map (\<lambda>c. JStr [c]) s"
| "py_iter (JObj d) = map (\<lambda>(k, v). JStr k) d"
| "py_iter v = []"

text \<open>A loop whose body may raise: the exception of the first item that raises.\<close>

fun first_raise :: "('a \<Rightarrow> string option) \<Rightarrow> 'a list \<Rightarrow> string option" where
  "first_raise body [] = None"
| "first_raise body (x # xs) = (case body x of Some e \<Rightarrow> Some e | None \<Rightarrow> first_raise body xs)"

subsection \<open>The two agents\<close>

text \<open>
  The listing of the candidates evaluates \<open>candidate['text']\<close> for each; formatting
  what it yields does not raise.
\<close>

definition print_candidate :: "json \<Rightarrow> string option" where
  "print_candidate candidate =
     (case py_getitem candidate ''text'' of Inl e \<Rightarrow> Some e | Inr t \<Rightarrow> None)"

text \<open>
  The listing of the approved metaphors evaluates \<open>metaphor['text']\<close>, then
  \<open>len(metaphor['context']) > 100\<close> and, if so, \<open>metaphor['context'][:100] + "..."\<close>:
  the slice of a string is a string; the slice of a list cannot be added to a string;
  a dictionary has no item for a slice.
\<close>

definition print_metaphor :: "json \<Rightarrow> string option" where
  "print_metaphor metaphor =
     (case py_getitem metaphor ''text'' of
        Inl e \<Rightarrow> Some e
      | Inr t \<Rightarrow>
          (case py_getitem metaphor ''context'' of
             Inl e \<Rightarrow> Some e
           | Inr context \<Rightarrow>
               (case py_len context of
                  Inl e \<Rightarrow> Some e
                | Inr n \<Rightarrow>
                    if n > 100 then
                      (case context of
                         JStr c \<Rightarrow> None
                       | JList l \<Rightarrow> Some ''can only concatenate list (not \"str\") to list''
                       | _ \<Rightarrow> Some ''slice(None, 100, None)'')
                    else None)))"

text \<open>
  The result of \<open>analyze_text\<close> is a dictionary, here the list of its items in the
  order of the source.
\<close>

type_synonym result = "(string \<times> json) list"

text \<open>
  Where the \<open>try\<close> block of the first agent ends when it does not raise: it returns a
  result, or it leaves the candidates, with their \<open>len\<close>, for the second agent.
\<close>

datatype stage1 = Return result | Candidates json nat

definition agent1 :: "(string \<Rightarrow> pyexn + json) \<Rightarrow> string \<Rightarrow> string + stage1" where
  "agent1 loads response_text =
     (let result1 = strip response_text in
      case fst (clean_and_parse_json loads result1 ''Agent 1'') of
        Inl e \<Rightarrow> Inl e
      | Inr candidates_data \<Rightarrow>
          if candidates_data = JNull
          then Inr (Return [(''success'', JBool False),
                            (''error'', JStr ''Agent 1 JSON parsing failed'')])
          else
            (case py_get candidates_data ''candidates'' (JList []) of
               Inl e \<Rightarrow> Inl e
             | Inr candidates \<Rightarrow>
                 (case py_len candidates of
                    Inl e \<Rightarrow> Inl e
                  | Inr n \<Rightarrow>
                      if n \<noteq> 0 then
                        (case first_raise print_candidate (py_iter candidates) of
                           Some e \<Rightarrow> Inl e
                         | None \<Rightarrow> Inr (Candidates candidates n))
                      else Inr (Candidates candidates n))))"

text \<open>The \<open>try\<close> block of the second agent, when it does not raise.\<close>

definition agent2 :: "(string \<Rightarrow> pyexn + json) \<Rightarrow> json \<Rightarrow> nat \<Rightarrow> string \<Rightarrow> string + result" where
  "agent2 loads candidates n response_text =
     (let result2 = strip response_text in
      case fst (clean_and_parse_json loads result2 ''Agent 2'') of
        Inl e \<Rightarrow> Inl e
      | Inr filtered_data \<Rightarrow>
          if filtered_data = JNull
          then Inr [(''candidates'', candidates),
                    (''error'', JStr ''Agent 2 JSON parsing failed''),
                    (''success'', JBool False)]
          else
            (case py_get filtered_data ''metaphors'' (JList []) of
               Inl e \<Rightarrow> Inl e
             | Inr final_metaphors \<Rightarrow>
                 (case py_len final_metaphors of
                    Inl e \<Rightarrow> Inl e
                  | Inr m \<Rightarrow>
                      (let rejected_count = int n - int m;
                           complete =
                             [(''agent1_model'', JStr ''gemini-2.0-flash''),
                              (''agent2_model'', JStr ''gemini-2.5-flash''),
                              (''candidates'', candidates),
                              (''final_metaphors'', final_metaphors),
                              (''agent1_count'', JInt (int n)),
                              (''agent2_count'', JInt (int m)),
                              (''rejected_count'', JInt rejected_count),
                              (''success'', JBool True)]
                       in if m \<noteq> 0 then
                            (case first_raise print_metaphor (py_iter final_metaphors) of
                               Some e \<Rightarrow> Inl e
                             | None \<Rightarrow> Inr complete)
                          else Inr complete))))"

text \<open>The pause between the agents, from the summary of the limiter.\<close>

definition pause_time :: "usage_summary \<Rightarrow> int" where
  "pause_time usage = max 6 (60 - rpm_used (combined usage))"

text \<open>
  The first half of \<open>analyze_text\<close>, up to the end of its first \<open>try\<close> statement: the
  request of the first agent at the reading \<open>now1\<close> of the clock, and its \<open>try\<close> block
  on the text replied.
\<close>

definition stage1_run ::
  "(string \<Rightarrow> pyexn + json) \<Rightarrow> limiter \<Rightarrow> instant \<Rightarrow> reply
     \<Rightarrow> limiter \<times> effect list \<times> (string + stage1)" where
  "stage1_run loads s now1 reply1 =
     (case safe_gemini_request s now1 ''gemini-2.0-flash'' reply1 of
        (s1, effects1, Inl e) \<Rightarrow> (s1, effects1, Inl e)
      | (s1, effects1, Inr response_text) \<Rightarrow> (s1, effects1, agent1 loads response_text))"

text \<open>
  \<open>analyze_text\<close>, with the limiter of its client, the readings of the clock by the
  first request, by \<open>get_usage_summary\<close> and by the second request, and what the
  collaborator does at each request. It yields the limiter, the effects and the
  dictionary returned; both \<open>except Exception\<close> clauses are in it, so it has no
  exceptional result.
\<close>

definition analyze_text ::
  "(string \<Rightarrow> pyexn + json) \<Rightarrow> limiter \<Rightarrow> instant \<Rightarrow> instant \<Rightarrow> instant \<Rightarrow> reply \<Rightarrow> reply
     \<Rightarrow> limiter \<times> effect list \<times> result" where
  "analyze_text loads s now1 now_summary now2 reply1 reply2 =
     (case stage1_run loads s now1 reply1 of
        (s1, effects1, Inl e) \<Rightarrow>
          (s1, effects1, [(''success'', JBool False), (''error'', JStr (''Agent 1 error: '' @ e))])
      | (s1, effects1, Inr (Return r)) \<Rightarrow> (s1, effects1, r)
      | (s1, effects1, Inr (Candidates candidates n)) \<Rightarrow>
          if n = 0 then
            (s1, effects1,
             [(''candidates'', JList []),
              (''final_metaphors'', JList []),
              (''agent1_count'', JInt 0),
              (''agent2_count'', JInt 0),
              (''success'', JBool True)])
          else
            (case get_usage_summary s1 now_summary of
               (s2, usage) \<Rightarrow>
                 (case safe_gemini_request s2 now2 ''gemini-2.5-flash'' reply2 of
                    (s3, effects2, r2) \<Rightarrow>
                      (s3, effects1 @ [Pause (pause_time usage)] @ effects2,
                       (case (case r2 of Inl e \<Rightarrow> Inl e
                                       | Inr response_text \<Rightarrow> agent2 loads candidates n response_text) of
                          Inl e \<Rightarrow> [(''candidates'', candidates),
                                    (''error'', JStr (''Agent 2 error: '' @ e)),
                                    (''success'', JBool False)]
                        | Inr r \<Rightarrow> r)))))"

section \<open>Inputs of the evaluations\<close>

subsection \<open>Texts the extractor is evaluated on\<close>

text \<open>An object whose string value holds a fence and a closing brace, inside a fence.\<close>

definition backtick_object :: string where
  \<open>backtick_object = ''{"note": "use ``` and }"}''\<close>

definition fenced_backtick_object :: string where
  \<open>fenced_backtick_object = ''```json\<newline>'' @ backtick_object @ ''\<newline>```''\<close>

text \<open>An object presented bare, in a fence after some prose, and between prose.\<close>

definition bare_text :: string where
  \<open>bare_text = '' {"candidates": []}\<newline>''\<close>

definition fence_pre :: string where
  \<open>fence_pre = ''Here is the result:\<newline>''\<close>

definition fence_body :: string where
  \<open>fence_body = ''\<newline>{"a": [1, 2]}\<newline>''\<close>

definition fence_post :: string where
  \<open>fence_post = ''\<newline>Done.''\<close>

definition prose_pre :: string where
  \<open>prose_pre = ''Result: ''\<close>

definition prose_region_tail :: string where
  \<open>prose_region_tail = ''"a": {"b": 2}}''\<close>

definition prose_post :: string where
  \<open>prose_post = '' done.''\<close>


subsection \<open>Items of the shape the prompts ask for\<close>


subsection \<open>Replies the pipeline is evaluated on\<close>

text \<open>Four candidates from the first agent, in a fence; two of them approved by the second.\<close>

definition four_candidates :: string where
  \<open>four_candidates = ''```json\<newline>{"candidates": [''
     @ ''{"text": "fire sales", "context": "forced fire sales of assets"}, ''
     @ ''{"text": "take stock", "context": "time to take stock"}, ''
     @ ''{"text": "feedback loop", "context": "an adverse feedback loop"}, ''
     @ ''{"text": "move forward", "context": "as we move forward"}]}\<newline>```''\<close>

definition four_candidates_json :: json where
  "four_candidates_json = JList
     [JObj [(''text'', JStr ''fire sales''), (''context'', JStr ''forced fire sales of assets'')],
      JObj [(''text'', JStr ''take stock''), (''context'', JStr ''time to take stock'')],
      JObj [(''text'', JStr ''feedback loop''), (''context'', JStr ''an adverse feedback loop'')],
      JObj [(''text'', JStr ''move forward''), (''context'', JStr ''as we move forward'')]]"

definition two_approved :: string where
  \<open>two_approved = ''{"metaphors": [''
     @ ''{"text": "feedback loop", "context": "an adverse feedback loop"}, ''
     @ ''{"text": "fire sales", "context": "forced fire sales of assets"}]}''\<close>



text \<open>No candidates.\<close>

definition no_candidates :: string where
  \<open>no_candidates = ''{"candidates": []}''\<close>

text \<open>
  The limiter of a new client after the request of the first agent at 5 microseconds,
  and after the request of the second agent at 70 seconds.
\<close>

definition after_stage1 :: limiter where
  "after_stage1 =
     \<lparr>request_times = [5], daily_requests = 1, daily_reset_time = 86400000000,
      model_requests = [(''gemini-2.0-flash'', 1), (''gemini-2.5-flash'', 0)]\<rparr>"


text \<open>A summary that reports 55 requests in the window, and one that reports none.\<close>

definition usage_55 :: usage_summary where
  "usage_55 =
     \<lparr>combined = \<lparr>rpm_used = 55, rpm_limit = 10, rpd_used = 55, rpd_limit = 200,
                   tpm_limit = 250000\<rparr>,
      by_model = [(''gemini-2.0-flash'', 28), (''gemini-2.5-flash'', 27)]\<rparr>"

definition usage_0 :: usage_summary where
  "usage_0 = snd (get_usage_summary (init_limiter 0) 0)"

subsection \<open>Calls the limiter is evaluated on\<close>

text \<open>
  Ten admissions in the first ten microseconds after the limiter is made at instant 0,
  for the model of the second stage.
\<close>

definition ten_calls :: "(instant \<times> string) list" where
  "ten_calls = map (\<lambda>i. (int i, ''gemini-2.5-flash'')) [0..<10]"

text \<open>Two hundred admissions, seven seconds apart.\<close>

definition two_hundred_calls :: "(instant \<times> string) list" where
  "two_hundred_calls = map (\<lambda>i. (int i * 7 * second, ''gemini-2.0-flash'')) [0..<200]"

text \<open>The same two hundred admissions four days later, on a limiter made then.\<close>

definition two_hundred_calls_later :: "(instant \<times> string) list" where
  "two_hundred_calls_later =
     map (\<lambda>i. (4 * day + int i * 7 * second, ''gemini-2.0-flash'')) [0..<200]"

text \<open>
  A limiter with its daily counter at the ceiling whose attribute \<open>daily_reset_time\<close>
  has been set to seven minutes past one in the afternoon of day 1.
\<close>

definition exhausted_limiter :: limiter where
  "exhausted_limiter =
     \<lparr>request_times = [], daily_requests = 200,
      daily_reset_time = day + 13 * hour + 7 * minute,
      model_requests = [(''gemini-2.0-flash'', 100), (''gemini-2.5-flash'', 100)]\<rparr>"

section \<open>Properties of the rate limiter\<close>

lemma COMBINED_rpm: "rpm COMBINED_LIMITS = 10"
  by (simp add: COMBINED_LIMITS_def individual_def INDIVIDUAL_LIMITS_def)

lemma COMBINED_rpd: "rpd COMBINED_LIMITS = 200"
  by (simp add: COMBINED_LIMITS_def individual_def INDIVIDUAL_LIMITS_def)

lemma COMBINED_tpm: "tpm COMBINED_LIMITS = 250000"
  by (simp add: COMBINED_LIMITS_def individual_def INDIVIDUAL_LIMITS_def)

subsection \<open>The daily counter\<close>

lemma wait_if_needed_daily_le:
  "daily_requests s \<le> rpd COMBINED_LIMITS \<Longrightarrow>
   daily_requests (fst (wait_if_needed s now m)) \<le> rpd COMBINED_LIMITS"
  by (simp add: wait_if_needed_def daily_reset_def Let_def COMBINED_rpd)

lemma admit_all_daily_le:
  "daily_requests s \<le> rpd COMBINED_LIMITS \<Longrightarrow>
   daily_requests (admit_all s calls) \<le> rpd COMBINED_LIMITS"
proof (induction calls arbitrary: s)
  case Nil
  then show ?case by simp
next
  case (Cons c calls)
  obtain now m where c: "c = (now, m)" by (cases c)
  show ?case unfolding c admit_all.simps
    by (rule Cons.IH) (rule wait_if_needed_daily_le [OF Cons.prems])
qed

lemma wait_if_needed_exhausted:
  assumes "rpd COMBINED_LIMITS \<le> daily_requests s" and "now < daily_reset_time s"
  shows "wait_if_needed s now m =
    (s, Raised (''Daily combined limit reached. Resets tomorrow at ''
                  @ strftime_HM (daily_reset_time s)))"
  using assms by (simp add: wait_if_needed_def daily_reset_def Let_def)

text \<open>
  Claim C2, as the code has it. When the daily counter has reached the combined
  per-day ceiling and the clock reads an instant before the stored reset instant,
  \<open>wait_if_needed\<close> raises at once. The exception carries a message only, which
  gives the hour and the minute of the stored reset instant and not its date; the
  limiter (rolling window, daily counter, per-model counters, reset instant) is as
  it was. And however many calls are made on a new limiter, at whatever readings of
  the clock, the daily counter never exceeds the per-day ceiling.
\<close>

theorem C2_daily_quota_exhausted:
  assumes "rpd COMBINED_LIMITS \<le> daily_requests s" and "now < daily_reset_time s"
  shows "wait_if_needed s now m =
           (s, Raised (''Daily combined limit reached. Resets tomorrow at ''
                         @ strftime_HM (daily_reset_time s)))
         \<and> daily_requests (admit_all (init_limiter t0) calls) \<le> rpd COMBINED_LIMITS"
proof
  show "wait_if_needed s now m =
           (s, Raised (''Daily combined limit reached. Resets tomorrow at ''
                         @ strftime_HM (daily_reset_time s)))"
    by (rule wait_if_needed_exhausted [OF assms])
  show "daily_requests (admit_all (init_limiter t0) calls) \<le> rpd COMBINED_LIMITS"
    by (rule admit_all_daily_le) (simp add: init_limiter_def COMBINED_rpd)
qed

lemma two_hundred_calls_state:
  "admit_all (init_limiter 0) two_hundred_calls =
     \<lparr>request_times =
        [1337000000, 1344000000, 1351000000, 1358000000, 1365000000, 1372000000,
         1379000000, 1386000000, 1393000000],
      daily_requests = 200, daily_reset_time = 86400000000,
      model_requests = [(''gemini-2.0-flash'', 200), (''gemini-2.5-flash'', 0)]\<rparr>"
  by code_simp

text \<open>
  The 201st call of a day, 1400 seconds after the limiter was made at instant 0: it
  raises, the reset being at 00:00, and the limiter keeps its 200. And a call on the
  limiter whose reset was set to 13:07: the message says 13:07.
\<close>

theorem C2_daily_quota_exhausted_witness:
  "rpd COMBINED_LIMITS \<le> daily_requests (admit_all (init_limiter 0) two_hundred_calls)
   \<and> 1400 * second < daily_reset_time (admit_all (init_limiter 0) two_hundred_calls)
   \<and> wait_if_needed (admit_all (init_limiter 0) two_hundred_calls) (1400 * second)
        ''gemini-2.5-flash''
      = (admit_all (init_limiter 0) two_hundred_calls,
         Raised ''Daily combined limit reached. Resets tomorrow at 00:00'')
   \<and> daily_requests (admit_all (init_limiter 0) two_hundred_calls) \<le> rpd COMBINED_LIMITS
   \<and> rpd COMBINED_LIMITS \<le> daily_requests exhausted_limiter
   \<and> 5 < daily_reset_time exhausted_limiter
   \<and> wait_if_needed exhausted_limiter 5 ''gemini-2.5-flash''
      = (exhausted_limiter,
         Raised ''Daily combined limit reached. Resets tomorrow at 13:07'')"
proof -
  let ?s = "admit_all (init_limiter 0) two_hundred_calls"
  have h1: "rpd COMBINED_LIMITS \<le> daily_requests ?s"
    by (simp add: two_hundred_calls_state COMBINED_rpd)
  have h2: "1400 * second < daily_reset_time ?s"
    by (simp add: two_hundred_calls_state second_def)
  have m: "strftime_HM (daily_reset_time ?s) = ''00:00''"
    by (simp add: two_hundred_calls_state strftime_HM_def two_digits_def digit_char_def
        hour_def minute_def second_def)
  have k1: "rpd COMBINED_LIMITS \<le> daily_requests exhausted_limiter"
    by (simp add: exhausted_limiter_def COMBINED_rpd)
  have k2: "5 < daily_reset_time exhausted_limiter"
    by (simp add: exhausted_limiter_def day_def hour_def minute_def second_def)
  have k: "strftime_HM (daily_reset_time exhausted_limiter) = ''13:07''"
    by (simp add: exhausted_limiter_def strftime_HM_def two_digits_def digit_char_def
        day_def hour_def minute_def second_def)
  show ?thesis
    using C2_daily_quota_exhausted [OF h1 h2, of "''gemini-2.5-flash''" 0 two_hundred_calls]
      C2_daily_quota_exhausted [OF k1 k2, of "''gemini-2.5-flash''" 0 two_hundred_calls]
      h1 h2 k1 k2
    by (simp add: m k)
qed

lemma two_hundred_calls_later_state:
  "admit_all (init_limiter (4 * day)) two_hundred_calls_later =
     \<lparr>request_times =
        [346937000000, 346944000000, 346951000000, 346958000000, 346965000000,
         346972000000, 346979000000, 346986000000, 346993000000],
      daily_requests = 200, daily_reset_time = 432000000000,
      model_requests = [(''gemini-2.0-flash'', 200), (''gemini-2.5-flash'', 0)]\<rparr>"
  by code_simp

text \<open>
  The claim as written has the error carry the scheduled reset instant. Two limiters
  that have each admitted 200 requests, one made at instant 0 with its reset at the
  start of day 1, the other made four days later with its reset at the start of day
  5, raise the same exception: the message holds \<open>00:00\<close> in both, and nothing else
  of the reset instant.
\<close>

theorem C2_error_does_not_carry_instant:
  "daily_reset_time (admit_all (init_limiter 0) two_hundred_calls) = day
   \<and> daily_reset_time (admit_all (init_limiter (4 * day)) two_hundred_calls_later) = 5 * day
   \<and> daily_reset_time (admit_all (init_limiter 0) two_hundred_calls)
       \<noteq> daily_reset_time (admit_all (init_limiter (4 * day)) two_hundred_calls_later)
   \<and> snd (wait_if_needed (admit_all (init_limiter 0) two_hundred_calls)
        (1400 * second) ''gemini-2.5-flash'')
       = Raised ''Daily combined limit reached. Resets tomorrow at 00:00''
   \<and> snd (wait_if_needed (admit_all (init_limiter (4 * day)) two_hundred_calls_later)
        (4 * day + 1400 * second) ''gemini-2.5-flash'')
       = Raised ''Daily combined limit reached. Resets tomorrow at 00:00''"
  unfolding two_hundred_calls_state two_hundred_calls_later_state by code_simp

subsection \<open>The rolling window\<close>

text \<open>
  Claim C1, evaluated where the code departs from it. A limiter is made at instant 0
  and admits ten requests in its first ten microseconds. The eleventh call reads the
  clock exactly 60 seconds after the first: the entry of the first request is not
  older than the cutoff, so it stays in the deque; ten entries meet the ceiling, but
  \<open>wait_time\<close> is 0 and not positive, so the call does not sleep. It returns at once
  with eleven timestamps in the window, and \<open>get_usage_summary\<close> at that instant
  reports 11 used against a limit of 10.
\<close>

theorem C1_window_exceeded_at_boundary:
  "wait_if_needed (admit_all (init_limiter 0) ten_calls) (60 * second) ''gemini-2.0-flash''
     = (\<lparr>request_times = [0, 1, 2, 3, 4, 5, 6, 7, 8, 9, 60000000],
         daily_requests = 11, daily_reset_time = 86400000000,
         model_requests = [(''gemini-2.0-flash'', 1), (''gemini-2.5-flash'', 10)]\<rparr>,
        Admitted None)
   \<and> return_instant (60 * second) (Admitted None) = 60 * second
   \<and> length (filter (\<lambda>t. 60 * second - minute \<le> t \<and> t \<le> 60 * second)
        (request_times (fst (wait_if_needed (admit_all (init_limiter 0) ten_calls)
           (60 * second) ''gemini-2.0-flash'')))) = 11
   \<and> rpm_used (combined (snd (get_usage_summary
        (fst (wait_if_needed (admit_all (init_limiter 0) ten_calls)
           (60 * second) ''gemini-2.0-flash'')) (60 * second)))) = 11
   \<and> rpm COMBINED_LIMITS = 10"
  by code_simp

subsection \<open>The daily reset\<close>

lemma replace_hms0_le: "replace_hms0 t \<le> t"
proof -
  have "t mod second = t mod day mod second"
    by (simp add: day_def hour_def minute_def mod_mod_cancel)
  also have "\<dots> \<le> t mod day"
    by (rule zmod_le_nonneg_dividend) (simp add: day_def hour_def minute_def second_def)
  finally have "t mod second \<le> t mod day" .
  moreover have "t = (t div day) * day + t mod day" by simp
  ultimately show ?thesis unfolding replace_hms0_def by linarith
qed

lemma replace_hms0_gt: "t < replace_hms0 t + day"
proof -
  have "t mod day < day" by (simp add: day_def hour_def minute_def second_def)
  moreover have "0 \<le> t mod second" by (simp add: second_def)
  moreover have "t = (t div day) * day + t mod day" by simp
  ultimately show ?thesis unfolding replace_hms0_def by linarith
qed

lemma mod_second_bounds: "0 \<le> t mod second \<and> t mod second < second \<and> t mod second < day"
proof -
  have "t mod second < second" "0 \<le> t mod second" by (simp_all add: second_def)
  moreover have "second < day" by (simp add: day_def hour_def minute_def second_def)
  ultimately show ?thesis by linarith
qed

lemma replace_hms0_mod: "(replace_hms0 t + day) mod day = t mod second"
proof -
  have "(replace_hms0 t + day) mod day = (t mod second) mod day"
    by (simp add: replace_hms0_def)
  also have "\<dots> = t mod second"
    using mod_second_bounds [of t] by (simp add: mod_pos_pos_trivial)
  finally show ?thesis .
qed

lemma replace_hms0_div: "(replace_hms0 t + day) div day = t div day + 1"
proof -
  have d: "day \<noteq> 0" by (simp add: day_def hour_def minute_def second_def)
  have "(replace_hms0 t + day) div day = (t mod second + (t div day + 1) * day) div day"
    by (simp add: replace_hms0_def algebra_simps)
  also have "\<dots> = (t mod second) div day + (t div day + 1)"
    using d by simp
  also have "(t mod second) div day = 0"
    using mod_second_bounds [of t] by (simp add: div_pos_pos_trivial)
  finally show ?thesis by simp
qed


lemma wait_if_needed_after_reset:
  assumes "daily_reset_time s \<le> now"
  shows "daily_requests (fst (wait_if_needed s now m)) = 1"
    and "model_requests (fst (wait_if_needed s now m))
           = track_model m (zero_counters (model_requests s))"
    and "daily_reset_time (fst (wait_if_needed s now m)) = replace_hms0 now + day"
    and "\<exists>slept. snd (wait_if_needed s now m) = Admitted slept"
  using assms by (simp_all add: wait_if_needed_def daily_reset_def Let_def COMBINED_rpd)

lemma track_zero_counters:
  "track_model m (zero_counters cs) = map (\<lambda>(k, v). (k, if k = m then 1 else 0)) cs"
  by (induction cs) (auto simp: track_model_def zero_counters_def)

text \<open>
  Claim C9, as the code has it. When \<open>wait_if_needed\<close> reads an instant at or past the
  stored reset instant, it zeroes the daily counter and every per-model counter before
  it counts the request being admitted, so the call returns (it does not raise) with
  the daily counter at 1, the counter of the called model at 1 and the others at 0.
  The new reset instant is computed from the instant read, not from the stored one:
  it lies in the first second of the calendar day after the instant read, later than
  that instant and at most 24 hours after it.
\<close>

theorem C9_daily_reset:
  assumes "daily_reset_time s \<le> now"
  shows "(\<exists>slept. snd (wait_if_needed s now m) = Admitted slept)
       \<and> daily_requests (fst (wait_if_needed s now m)) = 1
       \<and> model_requests (fst (wait_if_needed s now m))
           = map (\<lambda>(k, v). (k, if k = m then 1 else 0)) (model_requests s)
       \<and> daily_reset_time (fst (wait_if_needed s now m)) div day = now div day + 1
       \<and> daily_reset_time (fst (wait_if_needed s now m)) mod day < second
       \<and> now < daily_reset_time (fst (wait_if_needed s now m))
       \<and> daily_reset_time (fst (wait_if_needed s now m)) \<le> now + day"
proof -
  note r = wait_if_needed_after_reset [OF assms, of m]
  have "replace_hms0 now + day \<le> now + day"
    using replace_hms0_le [of now] by simp
  moreover have "(replace_hms0 now + day) mod day < second"
    unfolding replace_hms0_mod using mod_second_bounds [of now] by simp
  moreover have "(replace_hms0 now + day) div day = now div day + 1"
    by (rule replace_hms0_div)
  ultimately show ?thesis
    using r replace_hms0_gt [of now]
    by (simp only: track_zero_counters)
qed

text \<open>
  A limiter made at instant 0 has its reset at the start of day 1. A call at noon of
  day 3 resets it: the new reset instant is the start of day 4.
\<close>

theorem C9_daily_reset_witness:
  "daily_reset_time (init_limiter 0) \<le> 3 * day + 12 * hour
   \<and> snd (wait_if_needed (init_limiter 0) (3 * day + 12 * hour) ''gemini-2.0-flash'')
       = Admitted None
   \<and> daily_requests (fst (wait_if_needed (init_limiter 0) (3 * day + 12 * hour)
       ''gemini-2.0-flash'')) = 1
   \<and> model_requests (fst (wait_if_needed (init_limiter 0) (3 * day + 12 * hour)
       ''gemini-2.0-flash'')) = [(''gemini-2.0-flash'', 1), (''gemini-2.5-flash'', 0)]
   \<and> daily_reset_time (fst (wait_if_needed (init_limiter 0) (3 * day + 12 * hour)
       ''gemini-2.0-flash'')) div day = 4
   \<and> 3 * day + 12 * hour < daily_reset_time (fst (wait_if_needed (init_limiter 0)
       (3 * day + 12 * hour) ''gemini-2.0-flash''))"
proof -
  have h: "daily_reset_time (init_limiter 0) \<le> 3 * day + 12 * hour"
    by (simp add: init_limiter_def replace_hms0_def day_def hour_def minute_def second_def)
  have n: "(3 * day + 12 * hour) div day = 3"
    by (simp add: day_def hour_def minute_def second_def)
  have a: "snd (wait_if_needed (init_limiter 0) (3 * day + 12 * hour) ''gemini-2.0-flash'')
       = Admitted None"
    by code_simp
  have m: "model_requests (init_limiter 0) = [(''gemini-2.0-flash'', 0), (''gemini-2.5-flash'', 0)]"
    by (simp add: init_limiter_def)
  show ?thesis
    using C9_daily_reset [OF h, of "''gemini-2.0-flash''"] h
    by (simp add: n a m)
qed

text \<open>
  The claim as written, that the stored reset instant advances by 24 hours, fails on
  the same call: the stored instant is the start of day 1, the new one the start of
  day 4, not of day 2.
\<close>

theorem C9_not_advanced_by_24_hours:
  "daily_reset_time (init_limiter 0) \<le> 3 * day + 12 * hour
   \<and> daily_reset_time (init_limiter 0) = day
   \<and> daily_reset_time (fst (wait_if_needed (init_limiter 0) (3 * day + 12 * hour)
        ''gemini-2.0-flash'')) = 4 * day
   \<and> daily_reset_time (fst (wait_if_needed (init_limiter 0) (3 * day + 12 * hour)
        ''gemini-2.0-flash'')) \<noteq> daily_reset_time (init_limiter 0) + 24 * hour"
  by code_simp

section \<open>Properties of the extractor\<close>

subsection \<open>Strings\<close>

lemma dropWhile_rev_head:
  assumes "t = [] \<or> \<not> P (hd t)"
  shows "dropWhile P (rev (dropWhile P (rev t))) = rev (dropWhile P (rev t))"
proof (cases t)
  case Nil
  then show ?thesis by simp
next
  case (Cons x t')
  with assms have nx: "\<not> P x" by simp
  have "dropWhile P (rev t' @ [x]) = dropWhile P (rev t') @ [x]"
    using nx by (induction "rev t'" arbitrary: t') (auto simp: dropWhile_append)
  then show ?thesis using Cons nx by simp
qed

lemma strip_strip: "strip (strip s) = strip s"
proof -
  let ?t = "dropWhile isspace s"
  have h: "?t = [] \<or> \<not> isspace (hd ?t)"
    by (metis hd_dropWhile)
  have "dropWhile isspace (strip s) = strip s"
    unfolding strip_def by (rule dropWhile_rev_head [of ?t isspace, OF h])
  then show ?thesis
    by (simp add: strip_def)
qed

lemma find_at_absent:
  "sub \<noteq> [] \<Longrightarrow> hd sub \<notin> set s \<Longrightarrow> find_at sub s i = -1"
  by (induction s arbitrary: i) (auto simp: starts_with_def neq_Nil_conv)

lemma find_at_first:
  "sub \<noteq> [] \<Longrightarrow> hd sub \<notin> set pre \<Longrightarrow>
   find_at sub (pre @ sub @ rest) i = int (i + length pre)"
proof (induction pre arbitrary: i)
  case Nil
  then show ?case by (cases sub) (auto simp: starts_with_def)
next
  case (Cons c pre)
  then show ?case by (cases sub) (auto simp: starts_with_def)
qed

lemma scan_braces_append:
  "scan_braces s b i = Some k \<Longrightarrow> scan_braces (s @ post) b i = Some k"
  by (induction s b i rule: scan_braces.induct) (auto split: if_splits)


lemma fenced_content_no_backtick:
  "CHR 0x60 \<notin> set text \<Longrightarrow> fenced_content text = None"
  by (simp add: fenced_content_def contains_def find_def find_at_absent)

text \<open>The fence of method 2, when no backtick comes before it or inside it.\<close>

lemma fenced_content_fence:
  assumes "CHR 0x60 \<notin> set pre" and "CHR 0x60 \<notin> set body"
  shows "fenced_content (pre @ ''```json'' @ body @ ''```'' @ post) = Some (strip body)"
proof -
  let ?text = "pre @ ''```json'' @ body @ ''```'' @ post"
  have f1: "find ?text ''```json'' 0 = int (length pre)"
    using find_at_first [of "''```json''" pre "body @ ''```'' @ post" 0] assms(1)
    by (simp add: find_def)
  have "find_at ''```'' (pre @ ''```'' @ (''json'' @ body @ ''```'' @ post)) 0
          = int (0 + length pre)"
    by (rule find_at_first) (use assms(1) in simp_all)
  then have f2: "find ?text ''```'' 0 = int (length pre)"
    by (simp add: find_def)
  have d: "drop (length pre + 7) ?text = body @ ''```'' @ post"
    by simp
  have "find_at ''```'' (body @ ''```'' @ post) (length pre + 7)
          = int (length pre + 7 + length body)"
    by (rule find_at_first) (use assms(2) in simp_all)
  then have f3: "find ?text ''```'' (length pre + 7) = int (length pre + 7 + length body)"
    unfolding find_def d by simp
  have s: "slice ?text (length pre + 7) (length pre + 7 + length body) = body"
    unfolding slice_def d by simp
  have n: "nat (int (length pre) + 7 + int (length body)) = length pre + 7 + length body"
    by simp
  show ?thesis
    unfolding fenced_content_def contains_def f1 f2
    using f3 s by (simp add: Let_def n)
qed

text \<open>The region of method 3, when no brace comes before it.\<close>

lemma braced_content_region:
  assumes "CHR ''{'' \<notin> set pre" and "scan_braces (CHR ''{'' # s) 0 0 = Some (length s)"
  shows "braced_content (pre @ (CHR ''{'' # s) @ post) = Some (CHR ''{'' # s)"
proof -
  let ?text = "pre @ (CHR ''{'' # s) @ post"
  have "find_at ''{'' (pre @ ''{'' @ (s @ post)) 0 = int (0 + length pre)"
    by (rule find_at_first) (use assms(1) in simp_all)
  then have f: "find ?text ''{'' 0 = int (length pre)"
    by (simp add: find_def)
  have d: "drop (nat (int (length pre))) ?text = (CHR ''{'' # s) @ post"
    by simp
  have b: "scan_braces ((CHR ''{'' # s) @ post) 0 0 = Some (length s)"
    by (rule scan_braces_append [OF assms(2)])
  have sl: "slice ?text (length pre) (length pre + length s + 1) = CHR ''{'' # s"
    unfolding slice_def by simp
  show ?thesis
    unfolding braced_content_def f Let_def d b using sl by simp
qed

subsection \<open>The decoder raises nothing but \<open>JSONDecodeError\<close>\<close>




lemma extract_method1:
  "loads (strip text) = Inr v \<Longrightarrow> extract_json_from_response loads text = Inr v"
  by (simp add: extract_json_from_response_def try_loads_def)

lemma extract_method2:
  "loads (strip text) = Inl JSONDecodeError \<Longrightarrow> fenced_content text = Some c \<Longrightarrow>
   loads c = Inr v \<Longrightarrow> extract_json_from_response loads text = Inr v"
  by (simp add: extract_json_from_response_def method2_def try_loads_def)

lemma extract_method3:
  "loads (strip text) = Inl JSONDecodeError \<Longrightarrow> fenced_content text = None \<Longrightarrow>
   braced_content text = Some c \<Longrightarrow> loads c = Inr v \<Longrightarrow>
   extract_json_from_response loads text = Inr v"
  by (simp add: extract_json_from_response_def method2_def method3_def try_loads_def)

lemma extract_nothing:
  assumes "loads (strip text) = Inl JSONDecodeError"
    and "\<And>c. fenced_content text = Some c \<Longrightarrow> loads c = Inl JSONDecodeError"
    and "braced_content text = None"
  shows "extract_json_from_response loads text = Inr JNull"
proof -
  have m3: "method3 loads text = Inr JNull"
    by (simp add: method3_def assms(3))
  have m2: "method2 loads text = Inr JNull"
    unfolding method2_def
    by (cases "fenced_content text") (simp_all add: m3 try_loads_def assms(2))
  show ?thesis
    by (simp add: extract_json_from_response_def try_loads_def assms(1) m2)
qed

subsection \<open>Round trip\<close>

text \<open>
  Claim C5, as the code has it. A serialization of \<open>obj\<close> is a text the decoder
  decodes to \<open>obj\<close>. (a) If the trimmed text decodes to \<open>obj\<close>, the extractor returns
  \<open>obj\<close>. (b) If the text is some prose, the opening fence, a body, the closing fence
  and anything after it, where neither the prose nor the body holds a backtick, the
  trimmed text as a whole is not JSON and the trimmed body decodes to \<open>obj\<close>, the
  extractor returns \<open>obj\<close>. (c) If the text holds no backtick and is some prose
  without an opening brace, a region that starts with an opening brace and at whose
  last character the count of braces first returns to zero, and anything after it,
  where the trimmed text as a whole is not JSON and the region decodes to \<open>obj\<close>, the
  extractor returns \<open>obj\<close>.
\<close>

theorem C5_round_trip:
  "(loads (strip text) = Inr obj \<longrightarrow> extract_json_from_response loads text = Inr obj)
   \<and> (CHR 0x60 \<notin> set pre \<and> CHR 0x60 \<notin> set body
        \<and> loads (strip (pre @ ''```json'' @ body @ ''```'' @ post)) = Inl JSONDecodeError
        \<and> loads (strip body) = Inr obj'
      \<longrightarrow> extract_json_from_response loads (pre @ ''```json'' @ body @ ''```'' @ post)
            = Inr obj')
   \<and> (CHR ''{'' \<notin> set before
        \<and> CHR 0x60 \<notin> set (before @ (CHR ''{'' # region) @ after)
        \<and> scan_braces (CHR ''{'' # region) 0 0 = Some (length region)
        \<and> loads (strip (before @ (CHR ''{'' # region) @ after)) = Inl JSONDecodeError
        \<and> loads (CHR ''{'' # region) = Inr obj''
      \<longrightarrow> extract_json_from_response loads (before @ (CHR ''{'' # region) @ after)
            = Inr obj'')"
proof (intro conjI impI)
  assume "loads (strip text) = Inr obj"
  then show "extract_json_from_response loads text = Inr obj"
    by (rule extract_method1)
next
  assume a: "CHR 0x60 \<notin> set pre \<and> CHR 0x60 \<notin> set body
        \<and> loads (strip (pre @ ''```json'' @ body @ ''```'' @ post)) = Inl JSONDecodeError
        \<and> loads (strip body) = Inr obj'"
  then have "fenced_content (pre @ ''```json'' @ body @ ''```'' @ post) = Some (strip body)"
    using fenced_content_fence [of pre body post] by blast
  with a show "extract_json_from_response loads (pre @ ''```json'' @ body @ ''```'' @ post)
            = Inr obj'"
    by (blast intro: extract_method2)
next
  let ?text = "before @ (CHR ''{'' # region) @ after"
  assume a: "CHR ''{'' \<notin> set before
        \<and> CHR 0x60 \<notin> set ?text
        \<and> scan_braces (CHR ''{'' # region) 0 0 = Some (length region)
        \<and> loads (strip ?text) = Inl JSONDecodeError
        \<and> loads (CHR ''{'' # region) = Inr obj''"
  then have f: "fenced_content ?text = None"
    using fenced_content_no_backtick [of ?text] by blast
  from a have b: "braced_content ?text = Some (CHR ''{'' # region)"
    using braced_content_region [of before region after] by blast
  from a f b show "extract_json_from_response loads ?text = Inr obj''"
    by (blast intro: extract_method3)
qed

theorem C5_round_trip_witness:
  "json_loads (strip bare_text) = Inr (JObj [(''candidates'', JList [])])
   \<and> extract_json_from_response json_loads bare_text = Inr (JObj [(''candidates'', JList [])])
   \<and> CHR 0x60 \<notin> set fence_pre \<and> CHR 0x60 \<notin> set fence_body
   \<and> json_loads (strip (fence_pre @ ''```json'' @ fence_body @ ''```'' @ fence_post))
        = Inl JSONDecodeError
   \<and> json_loads (strip fence_body) = Inr (JObj [(''a'', JList [JInt 1, JInt 2])])
   \<and> extract_json_from_response json_loads
        (fence_pre @ ''```json'' @ fence_body @ ''```'' @ fence_post)
        = Inr (JObj [(''a'', JList [JInt 1, JInt 2])])
   \<and> CHR ''{'' \<notin> set prose_pre
   \<and> CHR 0x60 \<notin> set (prose_pre @ (CHR ''{'' # prose_region_tail) @ prose_post)
   \<and> scan_braces (CHR ''{'' # prose_region_tail) 0 0 = Some (length prose_region_tail)
   \<and> json_loads (strip (prose_pre @ (CHR ''{'' # prose_region_tail) @ prose_post))
        = Inl JSONDecodeError
   \<and> json_loads (CHR ''{'' # prose_region_tail) = Inr (JObj [(''a'', JObj [(''b'', JInt 2)])])
   \<and> extract_json_from_response json_loads
        (prose_pre @ (CHR ''{'' # prose_region_tail) @ prose_post)
        = Inr (JObj [(''a'', JObj [(''b'', JInt 2)])])"
proof -
  have a1: "json_loads (strip bare_text) = Inr (JObj [(''candidates'', JList [])])"
    by code_simp
  have b1: "CHR 0x60 \<notin> set fence_pre" by code_simp
  have b2: "CHR 0x60 \<notin> set fence_body" by code_simp
  have b3: "json_loads (strip (fence_pre @ ''```json'' @ fence_body @ ''```'' @ fence_post))
        = Inl JSONDecodeError"
    by code_simp
  have b4: "json_loads (strip fence_body) = Inr (JObj [(''a'', JList [JInt 1, JInt 2])])"
    by code_simp
  have c1: "CHR ''{'' \<notin> set prose_pre" by code_simp
  have c2: "CHR 0x60 \<notin> set (prose_pre @ (CHR ''{'' # prose_region_tail) @ prose_post)"
    by code_simp
  have c3: "scan_braces (CHR ''{'' # prose_region_tail) 0 0 = Some (length prose_region_tail)"
    by code_simp
  have c4: "json_loads (strip (prose_pre @ (CHR ''{'' # prose_region_tail) @ prose_post))
        = Inl JSONDecodeError"
    by code_simp
  have c5: "json_loads (CHR ''{'' # prose_region_tail)
        = Inr (JObj [(''a'', JObj [(''b'', JInt 2)])])"
    by code_simp
  from C5_round_trip [of json_loads bare_text "JObj [(''candidates'', JList [])]"
      fence_pre fence_body fence_post "JObj [(''a'', JList [JInt 1, JInt 2])]"
      prose_pre prose_region_tail prose_post "JObj [(''a'', JObj [(''b'', JInt 2)])]"]
    a1 b1 b2 b3 b4 c1 c2 c3 c4 c5
  show ?thesis by blast
qed

text \<open>
  The claim as written fails for a fenced object whose string value holds a fence and
  a closing brace: the text decodes to the object, but method 2 cuts the body at the
  fence inside the string, method 3 cuts the region at the brace inside the string,
  and the extractor returns \<open>None\<close>.
\<close>

theorem C5_fenced_object_lost:
  "json_loads backtick_object = Inr (JObj [(''note'', JStr ''use ``` and }'')])
   \<and> fenced_backtick_object = ''```json'' @ (CHR 0x0A # backtick_object @ [CHR 0x0A]) @ ''```''
   \<and> extract_json_from_response json_loads fenced_backtick_object = Inr JNull"
  by code_simp

subsection \<open>Failure\<close>




subsection \<open>A decoded \<open>null\<close>\<close>

text \<open>
  Claim C10. If the trimmed text decodes to \<open>null\<close>, the extractor returns \<open>None\<close>,
  which is what it returns for any text in which none of its methods finds
  anything; \<open>clean_and_parse_json\<close> then prints its two lines of failure and returns
  \<open>None\<close>, though the decoder succeeded.
\<close>

theorem C10_decoded_null_is_failure:
  assumes "loads (strip response_text) = Inr JNull"
  shows "extract_json_from_response loads response_text = Inr JNull
       \<and> clean_and_parse_json loads response_text agent_name
           = (Inr JNull, [Error_parsing_JSON_from agent_name,
                          Raw_response (take 200 (strip response_text))])
       \<and> (loads (strip other) = Inl JSONDecodeError \<and> fenced_content other = None
            \<and> braced_content other = None
          \<longrightarrow> extract_json_from_response loads other
                = extract_json_from_response loads response_text)"
proof -
  have e: "extract_json_from_response loads response_text = Inr JNull"
    by (rule extract_method1 [of loads response_text JNull, OF assms])
  have "loads (strip (strip response_text)) = Inr JNull"
    by (simp only: strip_strip assms)
  then have e': "extract_json_from_response loads (strip response_text) = Inr JNull"
    by (rule extract_method1 [of loads "strip response_text" JNull])
  have c: "clean_and_parse_json loads response_text agent_name
           = (Inr JNull, [Error_parsing_JSON_from agent_name,
                          Raw_response (take 200 (strip response_text))])"
    by (simp add: clean_and_parse_json_def Let_def e')
  have o: "extract_json_from_response loads other = Inr JNull"
    if h: "loads (strip other) = Inl JSONDecodeError \<and> fenced_content other = None
            \<and> braced_content other = None"
    by (rule extract_nothing) (use h in simp_all)
  show ?thesis using e c o by simp
qed

theorem C10_decoded_null_is_failure_witness:
  "json_loads (strip ''null'') = Inr JNull
   \<and> extract_json_from_response json_loads ''null'' = Inr JNull
   \<and> clean_and_parse_json json_loads ''null'' ''Agent 1''
       = (Inr JNull, [Error_parsing_JSON_from ''Agent 1'', Raw_response ''null''])
   \<and> json_loads (strip ''no json here'') = Inl JSONDecodeError
   \<and> fenced_content ''no json here'' = None
   \<and> braced_content ''no json here'' = None
   \<and> extract_json_from_response json_loads ''no json here''
       = extract_json_from_response json_loads ''null''"
proof -
  have h: "json_loads (strip ''null'') = Inr JNull" by code_simp
  have s: "take 200 (strip ''null'') = ''null''" by code_simp
  have o1: "json_loads (strip ''no json here'') = Inl JSONDecodeError" by code_simp
  have o2: "fenced_content ''no json here'' = None" by code_simp
  have o3: "braced_content ''no json here'' = None" by code_simp
  from C10_decoded_null_is_failure [where loads = json_loads and response_text = "''null''"
      and agent_name = "''Agent 1''" and other = "''no json here''"] h o1 o2 o3
  show ?thesis unfolding s by simp
qed

section \<open>Properties of the pipeline\<close>

subsection \<open>The gateway\<close>

lemma safe_gemini_request_raised:
  "wait_if_needed s now m = (s', Raised msg) \<Longrightarrow>
   safe_gemini_request s now m r = (s', [], Inl msg)"
  by (simp add: safe_gemini_request_def)

lemma safe_gemini_request_admitted:
  "wait_if_needed s now m = (s', Admitted sl) \<Longrightarrow>
   safe_gemini_request s now m r =
     (s', (case sl of None \<Rightarrow> [] | Some d \<Rightarrow> [Limiter_sleep d]) @ [Generate_content m], r)"
  by (cases sl) (simp_all add: safe_gemini_request_def)

lemma safe_gemini_request_cases:
  obtains s' msg where "safe_gemini_request s now m r = (s', [], Inl msg)"
  | s' sl where "safe_gemini_request s now m r =
      (s', (case sl of None \<Rightarrow> [] | Some d \<Rightarrow> [Limiter_sleep d]) @ [Generate_content m], r)"
proof (cases "wait_if_needed s now m")
  case (Pair s' a)
  show ?thesis
  proof (cases a)
    case (Admitted sl)
    with Pair that(2) show ?thesis by (simp add: safe_gemini_request_admitted)
  next
    case (Raised msg)
    with Pair that(1) show ?thesis by (simp add: safe_gemini_request_raised)
  qed
qed


subsection \<open>The agents\<close>









subsection \<open>The run as a whole\<close>



lemma analyze_text_no_candidates:
  "stage1_run loads s now1 reply1 = (s1, fx1, Inr (Candidates c 0)) \<Longrightarrow>
   analyze_text loads s now1 nows now2 reply1 reply2 =
     (s1, fx1, [(''candidates'', JList []), (''final_metaphors'', JList []),
                (''agent1_count'', JInt 0), (''agent2_count'', JInt 0),
                (''success'', JBool True)])"
  by (simp add: analyze_text_def)

text \<open>The second half of a run that has candidates.\<close>

lemma analyze_text_stage2:
  assumes "stage1_run loads s now1 reply1 = (s1, fx1, Inr (Candidates c n))" and "n \<noteq> 0"
    and "safe_gemini_request (fst (get_usage_summary s1 nows)) now2 ''gemini-2.5-flash'' reply2
           = (s3, fx2, r2)"
  shows "analyze_text loads s now1 nows now2 reply1 reply2 =
     (s3, fx1 @ [Pause (pause_time (snd (get_usage_summary s1 nows)))] @ fx2,
      (case (case r2 of Inl e \<Rightarrow> Inl e | Inr response_text \<Rightarrow> agent2 loads c n response_text) of
         Inl e \<Rightarrow> [(''candidates'', c), (''error'', JStr (''Agent 2 error: '' @ e)),
                   (''success'', JBool False)]
       | Inr r \<Rightarrow> r))"
  using assms by (cases "get_usage_summary s1 nows") (auto simp: analyze_text_def)







subsection \<open>No candidates\<close>

lemma stage1_run_no_candidates:
  assumes "wait_if_needed s now1 ''gemini-2.0-flash'' = (s1, Admitted sl)"
    and "fst (clean_and_parse_json loads (strip text1) ''Agent 1'') = Inr (JObj d)"
    and "map_of d ''candidates'' = None \<or> map_of d ''candidates'' = Some (JList [])"
  shows "stage1_run loads s now1 (Inr text1) =
     (s1, (case sl of None \<Rightarrow> [] | Some t \<Rightarrow> [Limiter_sleep t])
            @ [Generate_content ''gemini-2.0-flash''],
      Inr (Candidates (JList []) 0))"
proof -
  have g: "(case map_of d ''candidates'' of None \<Rightarrow> JList [] | Some v \<Rightarrow> v) = JList []"
    using assms(3) by auto
  have "agent1 loads text1 = Inr (Candidates (JList []) 0)"
    by (simp add: agent1_def Let_def assms(2) g)
  then show ?thesis
    by (simp add: stage1_run_def safe_gemini_request_admitted [OF assms(1)])
qed

text \<open>
  Claim C4, as the code has it. If the limiter admits the first request, the
  collaborator replies a text and the text parses to a dictionary whose \<open>candidates\<close>
  are missing or the empty list, \<open>analyze_text\<close> returns the dictionary with empty
  candidates, empty final metaphors, both counts 0 and \<open>success\<close> true; the
  dictionary has no entry \<open>rejected_count\<close>. Its effects are those of the first
  request alone: no pause, no call of the second model.
\<close>

theorem C4_no_candidates:
  assumes "wait_if_needed s now1 ''gemini-2.0-flash'' = (s1, Admitted sl)"
    and "fst (clean_and_parse_json loads (strip text1) ''Agent 1'') = Inr (JObj d)"
    and "map_of d ''candidates'' = None \<or> map_of d ''candidates'' = Some (JList [])"
  shows "analyze_text loads s now1 nows now2 (Inr text1) reply2 =
           (s1, (case sl of None \<Rightarrow> [] | Some t \<Rightarrow> [Limiter_sleep t])
                  @ [Generate_content ''gemini-2.0-flash''],
            [(''candidates'', JList []), (''final_metaphors'', JList []),
             (''agent1_count'', JInt 0), (''agent2_count'', JInt 0),
             (''success'', JBool True)])
       \<and> map_of (snd (snd (analyze_text loads s now1 nows now2 (Inr text1) reply2)))
            ''rejected_count'' = None
       \<and> (\<forall>p. Pause p \<notin> set (fst (snd (analyze_text loads s now1 nows now2 (Inr text1) reply2))))
       \<and> Generate_content ''gemini-2.5-flash''
            \<notin> set (fst (snd (analyze_text loads s now1 nows now2 (Inr text1) reply2)))"
proof -
  have a: "analyze_text loads s now1 nows now2 (Inr text1) reply2 =
           (s1, (case sl of None \<Rightarrow> [] | Some t \<Rightarrow> [Limiter_sleep t])
                  @ [Generate_content ''gemini-2.0-flash''],
            [(''candidates'', JList []), (''final_metaphors'', JList []),
             (''agent1_count'', JInt 0), (''agent2_count'', JInt 0),
             (''success'', JBool True)])"
    by (rule analyze_text_no_candidates) (rule stage1_run_no_candidates [OF assms])
  show ?thesis
    unfolding a by (cases sl) simp_all
qed

theorem C4_no_candidates_witness:
  "wait_if_needed (init_limiter 0) 5 ''gemini-2.0-flash'' = (after_stage1, Admitted None)
   \<and> fst (clean_and_parse_json json_loads (strip no_candidates) ''Agent 1'')
       = Inr (JObj [(''candidates'', JList [])])
   \<and> analyze_text json_loads (init_limiter 0) 5 6 70000000 (Inr no_candidates)
        (Inr two_approved) =
       (after_stage1, [Generate_content ''gemini-2.0-flash''],
        [(''candidates'', JList []), (''final_metaphors'', JList []),
         (''agent1_count'', JInt 0), (''agent2_count'', JInt 0),
         (''success'', JBool True)])"
proof -
  have h1: "wait_if_needed (init_limiter 0) 5 ''gemini-2.0-flash'' = (after_stage1, Admitted None)"
    by code_simp
  have h2: "fst (clean_and_parse_json json_loads (strip no_candidates) ''Agent 1'')
       = Inr (JObj [(''candidates'', JList [])])"
    by code_simp
  have h3: "map_of [(''candidates'', JList [])] ''candidates'' = None
     \<or> map_of [(''candidates'', JList [])] ''candidates'' = Some (JList [])"
    by simp
  from C4_no_candidates [OF h1 h2 h3, of 6 70000000 "Inr two_approved"] h1 h2
  show ?thesis by simp
qed

text \<open>
  The claim as written gives the result a \<open>rejected_count\<close> of 0; the dictionary
  returned for no candidates has no such entry.
\<close>

theorem C4_no_rejected_count:
  "map_of (snd (snd (analyze_text json_loads (init_limiter 0) 5 6 70000000
       (Inr no_candidates) (Inr two_approved)))) ''rejected_count'' = None
   \<and> map_of (snd (snd (analyze_text json_loads (init_limiter 0) 5 6 70000000
       (Inr no_candidates) (Inr two_approved)))) ''rejected_count'' \<noteq> Some (JInt 0)
   \<and> map_of (snd (snd (analyze_text json_loads (init_limiter 0) 5 6 70000000
       (Inr no_candidates) (Inr two_approved)))) ''success'' = Some (JBool True)"
  by code_simp

subsection \<open>The pause between the agents\<close>

text \<open>
  Claim C3, as the code has it. When the first agent leaves candidates, the run
  pauses once, after the effects of the first request and before those of the
  second, for \<open>max(6, 60 - rpm_used)\<close> seconds, \<open>rpm_used\<close> being what the limiter's
  summary reports then: the 60 is a constant of the pipeline, not the combined
  limit per minute. For 55 requests used the pause is 6 seconds (the larger of 6 and
  5), for none it is 60 seconds.
\<close>

theorem C3_pause_between_agents:
  assumes "stage1_run loads s now1 reply1 = (s1, fx1, Inr (Candidates c n))" and "n \<noteq> 0"
  shows "(\<exists>fx2. fst (snd (analyze_text loads s now1 nows now2 reply1 reply2)) =
            fx1 @ [Pause (max 6 (60 - rpm_used (combined (snd (get_usage_summary s1 nows)))))]
              @ fx2
          \<and> (\<forall>p. Pause p \<notin> set fx2))
       \<and> (rpm_used (combined u) = 55 \<longrightarrow> pause_time u = max 6 5)
       \<and> (rpm_used (combined u') = 0 \<longrightarrow> pause_time u' = max 6 60)"
proof (intro conjI impI)
  show "\<exists>fx2. fst (snd (analyze_text loads s now1 nows now2 reply1 reply2)) =
            fx1 @ [Pause (max 6 (60 - rpm_used (combined (snd (get_usage_summary s1 nows)))))]
              @ fx2
          \<and> (\<forall>p. Pause p \<notin> set fx2)"
  proof (rule safe_gemini_request_cases
      [of "fst (get_usage_summary s1 nows)" now2 "''gemini-2.5-flash''" reply2])
    fix s3 msg
    assume g: "safe_gemini_request (fst (get_usage_summary s1 nows)) now2 ''gemini-2.5-flash''
                 reply2 = (s3, [], Inl msg)"
    show ?thesis
      unfolding analyze_text_stage2 [OF assms g] by (simp add: pause_time_def)
  next
    fix s3 sl
    assume g: "safe_gemini_request (fst (get_usage_summary s1 nows)) now2 ''gemini-2.5-flash''
                 reply2 = (s3, (case sl of None \<Rightarrow> [] | Some d \<Rightarrow> [Limiter_sleep d])
                       @ [Generate_content ''gemini-2.5-flash''], reply2)"
    show ?thesis
      unfolding analyze_text_stage2 [OF assms g] by (cases sl) (simp_all add: pause_time_def)
  qed
next
  assume "rpm_used (combined u) = 55"
  then show "pause_time u = max 6 5" by (simp add: pause_time_def)
next
  assume "rpm_used (combined u') = 0"
  then show "pause_time u' = max 6 60" by (simp add: pause_time_def)
qed

theorem C3_pause_between_agents_witness:
  "stage1_run json_loads (init_limiter 0) 5 (Inr four_candidates)
       = (after_stage1, [Generate_content ''gemini-2.0-flash''],
          Inr (Candidates four_candidates_json 4))
   \<and> rpm_used (combined (snd (get_usage_summary after_stage1 6))) = 1
   \<and> (\<exists>fx2. fst (snd (analyze_text json_loads (init_limiter 0) 5 6 70000000
          (Inr four_candidates) (Inr two_approved))) =
        [Generate_content ''gemini-2.0-flash''] @ [Pause (max 6 (60 - 1))] @ fx2
        \<and> (\<forall>p. Pause p \<notin> set fx2))
   \<and> rpm_used (combined usage_55) = 55 \<and> pause_time usage_55 = max 6 5
   \<and> rpm_used (combined usage_0) = 0 \<and> pause_time usage_0 = max 6 60"
proof -
  have h1: "stage1_run json_loads (init_limiter 0) 5 (Inr four_candidates)
       = (after_stage1, [Generate_content ''gemini-2.0-flash''],
          Inr (Candidates four_candidates_json 4))"
    by code_simp
  have n: "(4::nat) \<noteq> 0" by simp
  have u1: "rpm_used (combined (snd (get_usage_summary after_stage1 6))) = 1"
    by code_simp
  have u55: "rpm_used (combined usage_55) = 55"
    by (simp add: usage_55_def)
  have u0: "rpm_used (combined usage_0) = 0"
    by code_simp
  from C3_pause_between_agents [OF h1 n, of 6 70000000 "Inr two_approved" usage_55 usage_0]
    h1 u55 u0
  show ?thesis unfolding u1 by blast
qed

text \<open>
  The claim as written takes the ceiling of the formula to be the combined limit per
  minute, which is 10. With no request in the window the code pauses 60 seconds, not
  \<open>max(6, 10 - 0) = 10\<close>; in the run above, with one request in the window, it pauses
  59 seconds, not \<open>max(6, 10 - 1) = 9\<close>.
\<close>

theorem C3_ceiling_is_not_the_limit:
  "rpm COMBINED_LIMITS = 10
   \<and> rpm_used (combined usage_0) = 0
   \<and> pause_time usage_0 = 60
   \<and> max 6 (rpm COMBINED_LIMITS - rpm_used (combined usage_0)) = 10
   \<and> pause_time usage_0 \<noteq> max 6 (rpm COMBINED_LIMITS - rpm_used (combined usage_0))
   \<and> fst (snd (analyze_text json_loads (init_limiter 0) 5 6 70000000
        (Inr four_candidates) (Inr two_approved))) =
      [Generate_content ''gemini-2.0-flash'', Pause 59, Generate_content ''gemini-2.5-flash'']
   \<and> max 6 (rpm COMBINED_LIMITS - rpm_used (combined (snd (get_usage_summary after_stage1 6))))
       = 9"
  by code_simp

subsection \<open>The complete result\<close>




end
